theory Spec2Isabelle
  imports Complex_Main "HOL-Library.AList" "HOL-Library.Sublist"
begin

section \<open>Python values used by audio\_denoise.py\<close>

text \<open>
  A Python float is an IEEE 754 double. A finite double is modelled by the rational number
  it denotes, beside the two infinities and NaN. Every arithmetic operation gives the exact
  result rounded to the nearest double, ties to the even mantissa, and an infinity on
  overflow, as the hardware does. The sign of zero is not represented: the program never
  observes it. A character is a code point below 256.
\<close>

datatype pyfloat = Fin rat | PInf | NInf | NaN

subsection \<open>Rounding to the nearest double\<close>

text \<open>Rounding a rational to the nearest integer, a tie to the even one.\<close>

definition rne :: "rat \<Rightarrow> int" where
  "rne x = (let f = \<lfloor>x\<rfloor>; r = x - of_int f
            in if r < 1 / 2 then f else if 1 / 2 < r then f + 1
               else if even f then f else f + 1)"

text \<open>The number of binary digits of a positive integer.\<close>

function bit_length :: "int \<Rightarrow> int" where
  "bit_length n = (if n \<le> 0 then 0 else 1 + bit_length (n div 2))"
  by pat_completeness auto
termination
  by (relation "measure nat") auto

declare bit_length.simps [simp del]

text \<open>The binary exponent of a positive rational: \<open>2 powi e \<le> x < 2 powi (e + 1)\<close>.\<close>

definition ilog2 :: "rat \<Rightarrow> int" where
  "ilog2 x = (let (p, q) = quotient_of x;
                  e0 = bit_length p - bit_length q
              in if 2 powi e0 \<le> x then e0 else e0 - 1)"

text \<open>
  A positive rational rounded to 53 significant bits, or to a multiple of the smallest
  subnormal \<open>2 powi (- 1074)\<close> where that is coarser.
\<close>

definition rd_pos :: "rat \<Rightarrow> rat" where
  "rd_pos x = (let q = max (ilog2 x - 52) (- 1074)
               in of_int (rne (x / 2 powi q)) * 2 powi q)"

text \<open>The double nearest to a rational; from \<open>2 powi 1024\<close> on it is an infinity.\<close>

definition rd :: "rat \<Rightarrow> pyfloat" where
  "rd x = (if x = 0 then Fin 0
           else let v = rd_pos \<bar>x\<bar>
                in if 1024 \<le> ilog2 v then (if 0 < x then PInf else NInf)
                   else Fin (if 0 < x then v else - v))"

text \<open>The relative and the absolute bound of the rounding error.\<close>

definition unit_roundoff :: rat where
  "unit_roundoff = 2 powi (- 53)"

definition tiny :: rat where
  "tiny = 2 powi (- 1075)"

text \<open>The literal \<open>0.1\<close>.\<close>

definition point_one :: pyfloat where
  "point_one = rd (1 / 10)"

subsection \<open>Comparisons and arithmetic\<close>

datatype py_error =
    ValueError | OverflowError | ZeroDivisionError | KeyError
  | FileExistsError | NotADirectoryError | ReadError | WriteError | DenoiseError

fun fl_lt :: "pyfloat \<Rightarrow> pyfloat \<Rightarrow> bool" where
  "fl_lt NaN _ = False"
| "fl_lt _ NaN = False"
| "fl_lt (Fin a) (Fin b) = (a < b)"
| "fl_lt (Fin a) PInf = True"
| "fl_lt (Fin a) NInf = False"
| "fl_lt PInf _ = False"
| "fl_lt NInf NInf = False"
| "fl_lt NInf _ = True"


fun fl_neg :: "pyfloat \<Rightarrow> pyfloat" where
  "fl_neg (Fin a) = Fin (- a)"
| "fl_neg PInf = NInf"
| "fl_neg NInf = PInf"
| "fl_neg NaN = NaN"

fun fl_add :: "pyfloat \<Rightarrow> pyfloat \<Rightarrow> pyfloat" where
  "fl_add NaN _ = NaN"
| "fl_add _ NaN = NaN"
| "fl_add (Fin a) (Fin b) = rd (a + b)"
| "fl_add (Fin a) b = b"
| "fl_add a (Fin b) = a"
| "fl_add PInf PInf = PInf"
| "fl_add NInf NInf = NInf"
| "fl_add PInf NInf = NaN"
| "fl_add NInf PInf = NaN"

definition fl_sub :: "pyfloat \<Rightarrow> pyfloat \<Rightarrow> pyfloat" where
  "fl_sub a b = fl_add a (fl_neg b)"

text \<open>The sign of a float as \<open>-1\<close>, \<open>0\<close> or \<open>1\<close> (NaN has none and is handled before).\<close>

fun fl_sgn :: "pyfloat \<Rightarrow> int" where
  "fl_sgn (Fin a) = (if a < 0 then - 1 else if a = 0 then 0 else 1)"
| "fl_sgn PInf = 1"
| "fl_sgn NInf = - 1"
| "fl_sgn NaN = 0"

definition fl_inf_of_sign :: "int \<Rightarrow> pyfloat" where
  "fl_inf_of_sign s = (if s = 0 then NaN else if s < 0 then NInf else PInf)"

fun fl_mul :: "pyfloat \<Rightarrow> pyfloat \<Rightarrow> pyfloat" where
  "fl_mul NaN _ = NaN"
| "fl_mul _ NaN = NaN"
| "fl_mul (Fin a) (Fin b) = rd (a * b)"
| "fl_mul a b = fl_inf_of_sign (fl_sgn a * fl_sgn b)"

text \<open>Float division \<open>a / b\<close>: a zero divisor raises.\<close>

fun fl_div :: "pyfloat \<Rightarrow> pyfloat \<Rightarrow> py_error + pyfloat" where
  "fl_div a (Fin b) =
     (if b = 0 then Inl ZeroDivisionError
      else case a of
        Fin x \<Rightarrow> Inr (rd (x / b))
      | NaN \<Rightarrow> Inr NaN
      | _ \<Rightarrow> Inr (fl_inf_of_sign (fl_sgn a * fl_sgn (Fin b))))"
| "fl_div NaN _ = Inr NaN"
| "fl_div _ NaN = Inr NaN"
| "fl_div (Fin a) _ = Inr (Fin 0)"
| "fl_div _ _ = Inr NaN"

text \<open>
  The builtins \<open>min(a, b)\<close> and \<open>max(a, b)\<close> keep the first argument unless the second
  is strictly smaller (strictly greater); a comparison with NaN is false.
\<close>

definition py_min :: "pyfloat \<Rightarrow> pyfloat \<Rightarrow> pyfloat" where
  "py_min a b = (if fl_lt b a then b else a)"

definition py_max :: "pyfloat \<Rightarrow> pyfloat \<Rightarrow> pyfloat" where
  "py_max a b = (if fl_lt a b then b else a)"

text \<open>\<open>int(x)\<close> truncates toward zero and raises on the infinities and on NaN.\<close>

fun py_int :: "pyfloat \<Rightarrow> py_error + int" where
  "py_int (Fin r) = Inr (if 0 \<le> r then \<lfloor>r\<rfloor> else \<lceil>r\<rceil>)"
| "py_int NaN = Inl ValueError"
| "py_int _ = Inl OverflowError"

text \<open>
  True division \<open>n / d\<close> of two integers: the quotient correctly rounded; a zero
  divisor and a quotient too large for a double raise.
\<close>

definition py_truediv :: "int \<Rightarrow> int \<Rightarrow> py_error + pyfloat" where
  "py_truediv n d =
     (if d = 0 then Inl ZeroDivisionError
      else case rd (of_int n / of_int d) of
        Fin v \<Rightarrow> Inr (Fin v)
      | _ \<Rightarrow> Inl OverflowError)"

text \<open>
  The conversion of an integer operand in \<open>float * int\<close>: correctly rounded, and an
  integer too large for a double raises.
\<close>

definition float_of_int :: "int \<Rightarrow> py_error + pyfloat" where
  "float_of_int n =
     (case rd (of_int n) of
        Fin v \<Rightarrow> Inr (Fin v)
      | _ \<Rightarrow> Inl OverflowError)"

subsection \<open>String builtins\<close>

text \<open>
  \<open>str.lower\<close> on code points below 256: the letters \<open>A\<close> to \<open>Z\<close> and the
  accented capitals \<open>0xC0\<close> to \<open>0xDE\<close>, without the multiplication sign \<open>0xD7\<close>.
\<close>

definition lower_table :: "(char \<times> char) list" where
  "lower_table =
       [(CHR 0x41, CHR 0x61), (CHR 0x42, CHR 0x62), (CHR 0x43, CHR 0x63),
        (CHR 0x44, CHR 0x64), (CHR 0x45, CHR 0x65), (CHR 0x46, CHR 0x66),
        (CHR 0x47, CHR 0x67), (CHR 0x48, CHR 0x68), (CHR 0x49, CHR 0x69),
        (CHR 0x4A, CHR 0x6A), (CHR 0x4B, CHR 0x6B), (CHR 0x4C, CHR 0x6C),
        (CHR 0x4D, CHR 0x6D), (CHR 0x4E, CHR 0x6E), (CHR 0x4F, CHR 0x6F),
        (CHR 0x50, CHR 0x70), (CHR 0x51, CHR 0x71), (CHR 0x52, CHR 0x72),
        (CHR 0x53, CHR 0x73), (CHR 0x54, CHR 0x74), (CHR 0x55, CHR 0x75),
        (CHR 0x56, CHR 0x76), (CHR 0x57, CHR 0x77), (CHR 0x58, CHR 0x78),
        (CHR 0x59, CHR 0x79), (CHR 0x5A, CHR 0x7A), (CHR 0xC0, CHR 0xE0),
        (CHR 0xC1, CHR 0xE1), (CHR 0xC2, CHR 0xE2), (CHR 0xC3, CHR 0xE3),
        (CHR 0xC4, CHR 0xE4), (CHR 0xC5, CHR 0xE5), (CHR 0xC6, CHR 0xE6),
        (CHR 0xC7, CHR 0xE7), (CHR 0xC8, CHR 0xE8), (CHR 0xC9, CHR 0xE9),
        (CHR 0xCA, CHR 0xEA), (CHR 0xCB, CHR 0xEB), (CHR 0xCC, CHR 0xEC),
        (CHR 0xCD, CHR 0xED), (CHR 0xCE, CHR 0xEE), (CHR 0xCF, CHR 0xEF),
        (CHR 0xD0, CHR 0xF0), (CHR 0xD1, CHR 0xF1), (CHR 0xD2, CHR 0xF2),
        (CHR 0xD3, CHR 0xF3), (CHR 0xD4, CHR 0xF4), (CHR 0xD5, CHR 0xF5),
        (CHR 0xD6, CHR 0xF6), (CHR 0xD8, CHR 0xF8), (CHR 0xD9, CHR 0xF9),
        (CHR 0xDA, CHR 0xFA), (CHR 0xDB, CHR 0xFB), (CHR 0xDC, CHR 0xFC),
        (CHR 0xDD, CHR 0xFD), (CHR 0xDE, CHR 0xFE)]"

definition lower_char :: "char \<Rightarrow> char" where
  "lower_char c = (case map_of lower_table c of Some l \<Rightarrow> l | None \<Rightarrow> c)"

definition lower :: "string \<Rightarrow> string" where
  "lower s = map lower_char s"

text \<open>\<open>s.strip(c)\<close> for a one-character argument: drops \<open>c\<close> at both ends.\<close>

definition strip_char :: "char \<Rightarrow> string \<Rightarrow> string" where
  "strip_char c s = rev (dropWhile (\<lambda>x. x = c) (rev (dropWhile (\<lambda>x. x = c) s)))"

text \<open>\<open>s.split(sep)\<close> for a one-character separator: never empty, keeps empty pieces.\<close>

fun py_split :: "char \<Rightarrow> string \<Rightarrow> string list" where
  "py_split sep [] = [[]]"
| "py_split sep (c # cs) =
     (if c = sep then [] # py_split sep cs
      else (c # hd (py_split sep cs)) # tl (py_split sep cs))"

subsection \<open>The builtin \<open>float(str)\<close>\<close>

text \<open>
  \<open>float\<close> strips whitespace at both ends, allows single underscores between
  digits, and then accepts an optional sign followed by \<open>inf\<close>, \<open>infinity\<close> or \<open>nan\<close>
  in any case, or by a decimal numeral: digits with an optional point, at least one digit
  in all, and an optional exponent \<open>e\<close> or \<open>E\<close> with an optional sign and at least one
  digit. Anything else raises ValueError, here \<open>None\<close>. The value is the decimal
  numeral correctly rounded. Below 256 the whitespace is the six ASCII characters, the
  next-line control \<open>0x85\<close> and the no-break space \<open>0xA0\<close>.
\<close>

definition is_space :: "char \<Rightarrow> bool" where
  "is_space c =
     (c \<in> set [CHR '' '', CHR 0x09, CHR 0x0A, CHR 0x0B, CHR 0x0C, CHR 0x0D, CHR 0x85, CHR 0xA0])"

definition is_digit :: "char \<Rightarrow> bool" where
  "is_digit c = (c \<in> set ''0123456789'')"

definition strip_space :: "string \<Rightarrow> string" where
  "strip_space s = rev (dropWhile is_space (rev (dropWhile is_space s)))"

definition digit_val :: "char \<Rightarrow> nat" where
  "digit_val c = of_char c - 48"

definition digits_val :: "string \<Rightarrow> nat" where
  "digits_val ds = foldl (\<lambda>n c. 10 * n + digit_val c) 0 ds"

text \<open>
  Underscores: each one must follow a digit and be followed by a digit. The function
  returns the text without them, or \<open>None\<close>. The first argument is the previous character.
\<close>

fun drop_underscores :: "char \<Rightarrow> string \<Rightarrow> string option" where
  "drop_underscores prev [] = (if prev = CHR ''_'' then None else Some [])"
| "drop_underscores prev (c # cs) =
     (if c = CHR ''_'' then
        (if is_digit prev then drop_underscores c cs else None)
      else if prev = CHR ''_'' \<and> \<not> is_digit c then None
      else map_option ((#) c) (drop_underscores c cs))"

text \<open>The sign: whether it is a minus, and the text after it.\<close>

definition split_sign :: "string \<Rightarrow> bool \<times> string" where
  "split_sign s =
     (case s of
        c # r \<Rightarrow> if c = CHR ''-'' then (True, r) else if c = CHR ''+'' then (False, r) else (False, s)
      | [] \<Rightarrow> (False, s))"

text \<open>An unsigned decimal numeral, matched against the whole text.\<close>

definition parse_exponent :: "string \<Rightarrow> int option" where
  "parse_exponent s =
     (let (eneg, ed) = split_sign s
      in if ed \<noteq> [] \<and> list_all is_digit ed
         then Some (if eneg then - int (digits_val ed) else int (digits_val ed))
         else None)"

definition pow10 :: "int \<Rightarrow> rat" where
  "pow10 e = (if 0 \<le> e then 10 ^ nat e else 1 / 10 ^ nat (- e))"

text \<open>The fraction: the digits after a point, if there is one, and the text after them.\<close>

definition after_point :: "string \<Rightarrow> string \<times> string" where
  "after_point r =
     (case r of
        c # t \<Rightarrow> if c = CHR ''.'' then (takeWhile is_digit t, dropWhile is_digit t) else ([], r)
      | [] \<Rightarrow> ([], r))"

definition parse_decimal :: "string \<Rightarrow> rat option" where
  "parse_decimal s =
     (let ip = takeWhile is_digit s;
          (fp, r2) = after_point (dropWhile is_digit s);
          mant = of_nat (digits_val (ip @ fp)) / 10 ^ length fp
      in if ip = [] \<and> fp = [] then None
         else case r2 of
           [] \<Rightarrow> Some mant
         | c # t \<Rightarrow>
             if c = CHR ''e'' \<or> c = CHR ''E'' then
               (case parse_exponent t of
                  Some e \<Rightarrow> Some (mant * pow10 e)
                | None \<Rightarrow> None)
             else None)"

definition parse_inf_nan :: "string \<Rightarrow> pyfloat option" where
  "parse_inf_nan s =
     (if lower s = ''inf'' \<or> lower s = ''infinity'' then Some PInf
      else if lower s = ''nan'' then Some NaN
      else None)"

definition parse_number :: "string \<Rightarrow> pyfloat option" where
  "parse_number s =
     (let (neg, body) = split_sign s
      in case parse_decimal body of
           Some q \<Rightarrow> Some (rd (if neg then - q else q))
         | None \<Rightarrow> map_option (\<lambda>v. if neg then fl_neg v else v) (parse_inf_nan body))"

definition py_float :: "string \<Rightarrow> pyfloat option" where
  "py_float s =
     (let t = strip_space s
      in if t = [] then None
         else case drop_underscores (CHR 0x00) t of
                None \<Rightarrow> None
              | Some u \<Rightarrow> parse_number u)"

section \<open>parse\_time\_range\<close>

type_synonym interval = "pyfloat \<times> pyfloat"

text \<open>
  The body of the \<open>try\<close> block of \<open>parse_time_range\<close>. Every exception it can raise
  (a failed \<open>float\<close>, an unpacking of other than two pieces) is an \<open>Inl\<close>.
\<close>

definition parse_body :: "string \<Rightarrow> pyfloat \<Rightarrow> py_error + interval" where
  "parse_body time_str total_duration =
     (if lower time_str = ''start'' then Inr (Fin 0, Fin 1)
      else if lower time_str = ''end'' then Inr (fl_sub total_duration (Fin 1), total_duration)
      else if CHR ''%'' \<in> set time_str then
        (case py_float (strip_char (CHR ''%'') time_str) of
           None \<Rightarrow> Inl ValueError
         | Some p \<Rightarrow>
             (case fl_div p (Fin 100) of
                Inl e \<Rightarrow> Inl e
              | Inr percent \<Rightarrow> Inr (Fin 0, fl_mul total_duration percent)))
      else if CHR ''-'' \<in> set time_str then
        (case py_split (CHR ''-'') time_str of
           [a, b] \<Rightarrow>
             (case py_float a of
                None \<Rightarrow> Inl ValueError
              | Some start \<Rightarrow>
                  (case py_float b of
                     None \<Rightarrow> Inl ValueError
                   | Some end \<Rightarrow> Inr (start, end)))
         | _ \<Rightarrow> Inl ValueError)
      else
        (case py_float time_str of
           None \<Rightarrow> Inl ValueError
         | Some position \<Rightarrow> Inr (position, fl_add position (Fin 1))))"

text \<open>The \<open>except Exception\<close> handler prints a warning and returns the first second.\<close>

definition parse_time_range :: "string \<Rightarrow> pyfloat \<Rightarrow> interval" where
  "parse_time_range time_str total_duration =
     (case parse_body time_str total_duration of
        Inl e \<Rightarrow> (Fin 0, Fin 1)
      | Inr r \<Rightarrow> r)"

section \<open>extract\_noise\_clip\<close>

text \<open>
  A slice \<open>xs[i:j]\<close> with integer bounds: a negative bound counts from the end, and
  bounds outside the list are cut to it.
\<close>

definition slice_bound :: "nat \<Rightarrow> int \<Rightarrow> nat" where
  "slice_bound n i = (if i < 0 then nat (max 0 (int n + i)) else min n (nat i))"

definition py_slice :: "'a list \<Rightarrow> int \<Rightarrow> int \<Rightarrow> 'a list" where
  "py_slice xs i j = drop (slice_bound (length xs) i) (take (slice_bound (length xs) j) xs)"

text \<open>Lines 100 and 101: the interval is brought into the track.\<close>

definition clamp_range :: "interval \<Rightarrow> pyfloat \<Rightarrow> interval" where
  "clamp_range time_range total_duration =
     (let (start_time, end_time) = time_range;
          start_time = py_max (Fin 0) (py_min start_time (fl_sub total_duration point_one));
          end_time = py_max (fl_add start_time point_one) (py_min end_time total_duration)
      in (start_time, end_time))"

definition extract_noise_clip :: "'a list \<Rightarrow> int \<Rightarrow> interval \<Rightarrow> pyfloat \<Rightarrow> py_error + 'a list" where
  "extract_noise_clip audio sr time_range total_duration =
     (let (start_time, end_time) = clamp_range time_range total_duration
      in case float_of_int sr of
           Inl e \<Rightarrow> Inl e
         | Inr sr_float \<Rightarrow>
             (case py_int (fl_mul start_time sr_float) of
                Inl e \<Rightarrow> Inl e
              | Inr start_sample \<Rightarrow>
                  (case py_int (fl_mul end_time sr_float) of
                     Inl e \<Rightarrow> Inl e
                   | Inr end_sample \<Rightarrow> Inr (py_slice audio start_sample end_sample))))"

section \<open>PROFILE\_SETTINGS\<close>

record profile_params =
  stationary :: bool
  prop_decrease :: rat
  n_fft :: int
  win_length :: int
  hop_length :: int
  n_std_thresh_stationary :: rat

definition PROFILE_SETTINGS :: "(string \<times> profile_params) list" where
  "PROFILE_SETTINGS =
     [(''footsteps'', \<lparr>stationary = True, prop_decrease = 9 / 10, n_fft = 512,
         win_length = 512, hop_length = 128, n_std_thresh_stationary = 3 / 2\<rparr>),
      (''rain'', \<lparr>stationary = False, prop_decrease = 8 / 10, n_fft = 2048,
         win_length = 2048, hop_length = 512, n_std_thresh_stationary = 2\<rparr>),
      (''wind'', \<lparr>stationary = False, prop_decrease = 7 / 10, n_fft = 1024,
         win_length = 1024, hop_length = 256, n_std_thresh_stationary = 18 / 10\<rparr>),
      (''voice'', \<lparr>stationary = True, prop_decrease = 1, n_fft = 1024,
         win_length = 1024, hop_length = 256, n_std_thresh_stationary = 3 / 2\<rparr>),
      (''default'', \<lparr>stationary = True, prop_decrease = 95 / 100, n_fft = 1024,
         win_length = 1024, hop_length = 256, n_std_thresh_stationary = 17 / 10\<rparr>)]"

text \<open>\<open>d[k]\<close> raises KeyError on a missing key; \<open>d.get(k, default)\<close> does not.\<close>

definition dict_index :: "('k \<times> 'v) list \<Rightarrow> 'k \<Rightarrow> py_error + 'v" where
  "dict_index d k = (case map_of d k of None \<Rightarrow> Inl KeyError | Some v \<Rightarrow> Inr v)"

definition dict_get :: "('k \<times> 'v) list \<Rightarrow> 'k \<Rightarrow> 'v \<Rightarrow> 'v" where
  "dict_get d k dflt = (case map_of d k of None \<Rightarrow> dflt | Some v \<Rightarrow> v)"

text \<open>
  Line 126, \<open>PROFILE_SETTINGS.get(profile, PROFILE_SETTINGS["default"])\<close>: the default
  is looked up first, then the name.
\<close>

definition lookup_params :: "string \<Rightarrow> py_error + profile_params" where
  "lookup_params profile =
     (case dict_index PROFILE_SETTINGS ''default'' of
        Inl e \<Rightarrow> Inl e
      | Inr dflt \<Rightarrow> Inr (dict_get PROFILE_SETTINGS profile dflt))"

section \<open>Files and the external collaborators\<close>

text \<open>
  A path is its list of components, relative to the working directory, which is \<open>[]\<close>.
  The file system is an association list from paths to nodes, in directory-listing order.
  A regular file holds what \<open>soundfile.read\<close> returns for it, the samples and the sample
  rate, or nothing when it cannot be decoded. A sample is the rational it denotes; no
  property below depends on the value of a sample.
\<close>

type_synonym path = "string list"

datatype audio_data = Mono "rat list" | Multi "rat list list"

datatype node = Dir | File "(audio_data \<times> int) option"

type_synonym fs = "(path \<times> node) list"

definition is_file :: "fs \<Rightarrow> path \<Rightarrow> bool" where
  "is_file fs p = (case map_of fs p of Some (File _) \<Rightarrow> p \<noteq> [] | _ \<Rightarrow> False)"

definition is_dir :: "fs \<Rightarrow> path \<Rightarrow> bool" where
  "is_dir fs p = (p = [] \<or> map_of fs p = Some Dir)"

text \<open>
  \<open>Path.mkdir(parents=True, exist_ok=True)\<close>: walks down from the working directory
  \<open>pre\<close>, creates what is missing, and raises where a component exists as a file.
\<close>

fun mkdir_p :: "fs \<Rightarrow> path \<Rightarrow> path \<Rightarrow> py_error + fs" where
  "mkdir_p fs pre [] = Inr fs"
| "mkdir_p fs pre (c # cs) =
     (case map_of fs (pre @ [c]) of
        Some Dir \<Rightarrow> mkdir_p fs (pre @ [c]) cs
      | Some (File _) \<Rightarrow> Inl (if cs = [] then FileExistsError else NotADirectoryError)
      | None \<Rightarrow> mkdir_p (fs @ [(pre @ [c], Dir)]) (pre @ [c]) cs)"

definition sf_read :: "fs \<Rightarrow> path \<Rightarrow> py_error + (audio_data \<times> int)" where
  "sf_read fs p =
     (case map_of fs p of
        Some (File (Some a)) \<Rightarrow> Inr a
      | _ \<Rightarrow> Inl ReadError)"

text \<open>
  \<open>soundfile.write\<close> needs the parent directory and cannot replace a directory; the
  file then holds the samples and the rate it was given.
\<close>

definition sf_write :: "fs \<Rightarrow> path \<Rightarrow> rat list \<Rightarrow> int \<Rightarrow> py_error + fs" where
  "sf_write fs p data sr =
     (if p \<noteq> [] \<and> is_dir fs (butlast p) \<and> \<not> is_dir fs p
      then Inr (AList.update p (File (Some (Mono data, sr))) fs)
      else Inl WriteError)"

text \<open>
  \<open>len(audio)\<close> counts frames; \<open>np.mean(audio, axis=1)\<close> averages each frame. The
  average is written without its rounding, which changes sample values only.
\<close>

fun len_audio :: "audio_data \<Rightarrow> nat" where
  "len_audio (Mono xs) = length xs"
| "len_audio (Multi fr) = length fr"

fun to_mono :: "audio_data \<Rightarrow> rat list" where
  "to_mono (Mono xs) = xs"
| "to_mono (Multi fr) = map (\<lambda>f. sum_list f / of_nat (length f)) fr"

text \<open>
  \<open>noisereduce.reduce_noise(y, y_noise, sr, **params)\<close> is outside the repository: it is
  a parameter of the model, a function that returns the cleaned signal or raises.
\<close>

type_synonym denoiser = "rat list \<Rightarrow> rat list \<Rightarrow> int \<Rightarrow> profile_params \<Rightarrow> py_error + rat list"

section \<open>process\_file\<close>

text \<open>The body of the \<open>try\<close> block; its result is the file system after the write.\<close>

definition process_body ::
  "denoiser \<Rightarrow> fs \<Rightarrow> path \<Rightarrow> path \<Rightarrow> string \<Rightarrow> string \<Rightarrow> pyfloat \<Rightarrow> py_error + fs" where
  "process_body reduce_noise fs input_path output_path profile noise_position noise_duration =
     (case sf_read fs input_path of
        Inl e \<Rightarrow> Inl e
      | Inr (audio, sr) \<Rightarrow>
     (case py_truediv (int (len_audio audio)) sr of
        Inl e \<Rightarrow> Inl e
      | Inr total_duration \<Rightarrow>
     (let audio = to_mono audio;
          time_range = parse_time_range noise_position total_duration
      in case extract_noise_clip audio sr time_range total_duration of
        Inl e \<Rightarrow> Inl e
      | Inr noise_clip \<Rightarrow>
     (case lookup_params profile of
        Inl e \<Rightarrow> Inl e
      | Inr params \<Rightarrow>
     (case reduce_noise audio noise_clip sr params of
        Inl e \<Rightarrow> Inl e
      | Inr cleaned_audio \<Rightarrow> sf_write fs output_path cleaned_audio sr)))))"

text \<open>
  The optional arguments are \<open>None\<close> when the caller leaves them out; the signature's
  defaults are \<open>"default"\<close>, \<open>"start"\<close> and \<open>1.0\<close>. Any exception gives \<open>False\<close>.
\<close>

definition profile_default :: "string option \<Rightarrow> string" where
  "profile_default a = (case a of None \<Rightarrow> ''default'' | Some p \<Rightarrow> p)"

definition process_file ::
  "denoiser \<Rightarrow> fs \<Rightarrow> path \<Rightarrow> path \<Rightarrow> string option \<Rightarrow> string option \<Rightarrow> pyfloat option
     \<Rightarrow> bool \<times> fs" where
  "process_file reduce_noise fs input_path output_path profile noise_position noise_duration =
     (case process_body reduce_noise fs input_path output_path
             (profile_default profile)
             (case noise_position of None \<Rightarrow> ''start'' | Some p \<Rightarrow> p)
             (case noise_duration of None \<Rightarrow> Fin 1 | Some d \<Rightarrow> d) of
        Inl e \<Rightarrow> (False, fs)
      | Inr fs' \<Rightarrow> (True, fs'))"

section \<open>main\<close>

record args =
  arg_input :: "path option"
  arg_output :: path
  arg_profile :: string
  arg_noise_position :: string
  arg_noise_duration :: pyfloat
  arg_recursive :: bool
  arg_verbose :: bool
  arg_test_noise :: bool

definition upper_char :: "char \<Rightarrow> char" where
  "upper_char c =
     (case map_of (zip ''abcdefghijklmnopqrstuvwxyz'' ''ABCDEFGHIJKLMNOPQRSTUVWXYZ'') c of
        Some u \<Rightarrow> u | None \<Rightarrow> c)"

definition upper :: "string \<Rightarrow> string" where
  "upper s = map upper_char s"

definition extensions :: "string list" where
  "extensions = [''.flac'', ''.wav'', ''.mp3'', ''.ogg'', ''.aiff'']"

definition ends_with :: "string \<Rightarrow> string \<Rightarrow> bool" where
  "ends_with suf s = (length suf \<le> length s \<and> drop (length s - length suf) s = suf)"

text \<open>
  \<open>input_dir.glob(search_pattern + ext)\<close> with \<open>search_pattern\<close> either \<open>*\<close> or
  \<open>**/*\<close>: the entries below \<open>input_dir\<close>, directly or at any depth, whose name
  ends with \<open>ext\<close>. Names are compared as they are written, as on a POSIX system.
\<close>

definition glob :: "fs \<Rightarrow> path \<Rightarrow> bool \<Rightarrow> string \<Rightarrow> path list" where
  "glob fs input_dir recursive ext =
     map fst (filter (\<lambda>(p, n).
        length input_dir < length p \<and> take (length input_dir) p = input_dir
        \<and> (recursive \<or> length p = length input_dir + 1)
        \<and> ends_with ext (last p)) fs)"

text \<open>Lines 209 to 219: both spellings of each extension are globbed, in turn.\<close>

definition collect_audio_files :: "fs \<Rightarrow> path \<Rightarrow> bool \<Rightarrow> path list" where
  "collect_audio_files fs input_dir recursive =
     concat (map (\<lambda>ext. glob fs input_dir recursive ext @ glob fs input_dir recursive (upper ext))
                 extensions)"

definition output_prefix :: "bool \<Rightarrow> string" where
  "output_prefix test_noise = (if test_noise then ''noise_sample_'' else ''cleaned_'')"

text \<open>
  The loop over the collected files. An exception of \<open>mkdir\<close> is not caught: the loop
  ends there, with the error, the count and the file system reached so far.
\<close>

fun process_all ::
  "denoiser \<Rightarrow> args \<Rightarrow> path \<Rightarrow> path list \<Rightarrow> fs \<Rightarrow> nat \<Rightarrow> py_error option \<times> nat \<times> fs" where
  "process_all reduce_noise a input_dir [] fs success_count = (None, success_count, fs)"
| "process_all reduce_noise a input_dir (file # files) fs success_count =
     (let output_filename = output_prefix (arg_test_noise a) @ last file;
          output_parent = arg_output a @ butlast (drop (length input_dir) file);
          output_path = output_parent @ [output_filename]
      in case mkdir_p fs [] output_parent of
           Inl e \<Rightarrow> (Some e, success_count, fs)
         | Inr fs1 \<Rightarrow>
             (let (success, fs2) =
                    process_file reduce_noise fs1 file output_path (Some (arg_profile a))
                      (Some (arg_noise_position a)) (Some (arg_noise_duration a))
              in process_all reduce_noise a input_dir files fs2
                   (if success then success_count + 1 else success_count)))"

text \<open>
  The result is the exit status of the process and the file system it leaves: status 1
  for \<open>sys.exit(1)\<close> and for an exception that nothing catches, 0 otherwise. Printing
  is left out.
\<close>

definition main :: "denoiser \<Rightarrow> args \<Rightarrow> fs \<Rightarrow> nat \<times> fs" where
  "main reduce_noise a fs =
     (case mkdir_p fs [] (arg_output a) of
        Inl e \<Rightarrow> (1, fs)
      | Inr fs1 \<Rightarrow>
     (case arg_input a of
        None \<Rightarrow> (1, fs1)
      | Some input_path \<Rightarrow>
          if is_file fs1 input_path then
            (let output_path = arg_output a @ [output_prefix (arg_test_noise a) @ last input_path];
                 (success, fs2) =
                    process_file reduce_noise fs1 input_path output_path (Some (arg_profile a))
                      (Some (arg_noise_position a)) (Some (arg_noise_duration a))
             in (0, fs2))
          else if is_dir fs1 input_path then
            (let audio_files = collect_audio_files fs1 input_path (arg_recursive a)
             in if audio_files = [] then (0, fs1)
                else case process_all reduce_noise a input_path audio_files fs1 0 of
                       (None, success_count, fs2) \<Rightarrow> (0, fs2)
                     | (Some e, success_count, fs2) \<Rightarrow> (1, fs2))
          else (1, fs1)))"

section \<open>Definitions used to state the properties\<close>

text \<open>A denoiser for the examples: it returns the signal as it is, at full length.\<close>

definition keep_signal :: denoiser where
  "keep_signal y y_noise sr params = Inr y"

text \<open>A track of twenty seconds at two samples per second: the samples 0 to 39.\<close>

definition twenty_seconds :: "rat list" where
  "twenty_seconds = map of_nat [0..<40]"

text \<open>
  The specification's file filter: the extension, compared without regard to case, is
  one of the five.
\<close>

definition spec_audio_extension :: "string \<Rightarrow> bool" where
  "spec_audio_extension name = (\<exists>ext \<in> set extensions. ends_with ext (lower name))"

text \<open>
  The specification's malformed expressions, after its rules for the parser: neither
  keyword, and a parse or format error in rule 3, 4 or 5 (text that is not a number, or
  other than two pieces around the minus sign).
\<close>

definition spec_malformed :: "string \<Rightarrow> bool" where
  "spec_malformed expr =
     (lower expr \<noteq> ''start'' \<and> lower expr \<noteq> ''end'' \<and>
      (if CHR ''%'' \<in> set expr then py_float (strip_char (CHR ''%'') expr) = None
       else if CHR ''-'' \<in> set expr then
         length (py_split (CHR ''-'') expr) \<noteq> 2
         \<or> (\<exists>piece \<in> set (py_split (CHR ''-'') expr). py_float piece = None)
       else py_float expr = None))"

section \<open>Properties\<close>

subsection \<open>Creating directories\<close>

lemma mkdir_p_keeps:
  "mkdir_p fs pre cs = Inr fs' \<Longrightarrow> map_of fs q = Some n \<Longrightarrow> map_of fs' q = Some n"
proof (induction cs arbitrary: fs pre)
  case Nil
  then show ?case by simp
next
  case (Cons c cs)
  show ?case
  proof (cases "map_of fs (pre @ [c])")
    case None
    with Cons.prems have step: "mkdir_p (fs @ [(pre @ [c], Dir)]) (pre @ [c]) cs = Inr fs'"
      by simp
    have "map_of (fs @ [(pre @ [c], Dir)]) q = Some n"
      using Cons.prems(2) by (simp add: map_add_Some_iff)
    with Cons.IH [OF step] show ?thesis .
  next
    case (Some nd)
    with Cons.prems have "nd = Dir" and "mkdir_p fs (pre @ [c]) cs = Inr fs'"
      by (auto split: node.splits)
    with Cons.IH Cons.prems(2) show ?thesis by blast
  qed
qed



subsection \<open>The input path that does not exist\<close>




subsection \<open>Profiles\<close>

lemma default_params:
  "dict_index PROFILE_SETTINGS ''default'' =
     Inr \<lparr>stationary = True, prop_decrease = 95 / 100, n_fft = 1024,
          win_length = 1024, hop_length = 256, n_std_thresh_stationary = 17 / 10\<rparr>"
  by (simp add: dict_index_def PROFILE_SETTINGS_def)

text \<open>
  C7: looking a profile up never fails. A name that is not in the table, and the name
  used when the caller gives none, yield the parameters of \<open>default\<close>; the lookup is a
  function of the name alone, so asking twice gives equal parameters.
\<close>

theorem lookup_params_never_fails:
  "(\<exists>p. lookup_params name = Inr p) \<and>
   (name \<notin> set [''footsteps'', ''rain'', ''wind'', ''voice'', ''default'']
      \<longrightarrow> lookup_params name = lookup_params ''default'') \<and>
   lookup_params (profile_default None) = lookup_params ''default'' \<and>
   lookup_params ''default'' =
     Inr \<lparr>stationary = True, prop_decrease = 95 / 100, n_fft = 1024,
          win_length = 1024, hop_length = 256, n_std_thresh_stationary = 17 / 10\<rparr>"
proof -
  have unknown: "dict_get PROFILE_SETTINGS name d = d"
    if "name \<notin> set [''footsteps'', ''rain'', ''wind'', ''voice'', ''default'']" for d
    using that by (simp add: dict_get_def PROFILE_SETTINGS_def)
  have known: "dict_get PROFILE_SETTINGS ''default'' d =
      \<lparr>stationary = True, prop_decrease = 95 / 100, n_fft = 1024,
       win_length = 1024, hop_length = 256, n_std_thresh_stationary = 17 / 10\<rparr>" for d
    by (simp add: dict_get_def PROFILE_SETTINGS_def)
  show ?thesis
    using unknown by (simp add: lookup_params_def default_params profile_default_def known)
qed

theorem lookup_params_never_fails_witness:
  "''studio'' \<notin> set [''footsteps'', ''rain'', ''wind'', ''voice'', ''default''] \<and>
   lookup_params ''studio'' = lookup_params ''default''"
  using lookup_params_never_fails [of "''studio''"] by simp

subsection \<open>The noise duration\<close>

text \<open>
  C9: \<open>process_file\<close> does not use its \<open>noise_duration\<close> argument. With the other
  arguments fixed, any two values of it give the same success flag and the same files.
\<close>

theorem process_file_ignores_noise_duration:
  "process_file reduce_noise fs input_path output_path profile noise_position d1
   = process_file reduce_noise fs input_path output_path profile noise_position d2"
  by (simp add: process_file_def process_body_def)

subsection \<open>Rounding to doubles\<close>

text \<open>
  The integer \<open>bit_length n\<close> brackets \<open>n\<close> between two powers of two, which gives the
  binary exponent \<open>ilog2\<close> of a positive rational; rounding to a whole number is off by
  a half at most. Hence the rounding error of \<open>rd_pos\<close>: half a unit in the last place,
  which is at most \<open>x * 2 powi (- 53)\<close> for a normal and \<open>2 powi (- 1075)\<close> for a subnormal result.
\<close>

lemma bit_length_bounds:
  "0 < n \<Longrightarrow> 1 \<le> bit_length n \<and> 2 ^ nat (bit_length n - 1) \<le> n \<and> n < 2 ^ nat (bit_length n)"
proof (induction n rule: bit_length.induct)
  case (1 n)
  show ?case
  proof (cases "n div 2 = 0")
    case True
    with "1.prems" have n1: "n = 1" by presburger
    have "bit_length 1 = 1" by (simp add: bit_length.simps [of 1] bit_length.simps [of 0])
    with n1 show ?thesis by simp
  next
    case False
    with "1.prems" have pos: "0 < n div 2" by presburger
    define k where "k = bit_length (n div 2)"
    from "1.IH" "1.prems" pos have k: "1 \<le> k" and lo: "2 ^ nat (k - 1) \<le> n div 2"
      and hi: "n div 2 < 2 ^ nat k"
      by (simp_all add: k_def)
    have bl: "bit_length n = 1 + k"
      using "1.prems" by (simp add: bit_length.simps [of n] k_def)
    have e1: "nat (1 + k - 1) = Suc (nat (k - 1))" using k by simp
    have e2: "nat (1 + k) = Suc (nat k)" using k by simp
    have "2 * (n div 2) \<le> n" and "n \<le> 2 * (n div 2) + 1" by presburger+
    with lo hi show ?thesis unfolding bl e1 e2 by simp
  qed
qed

lemma p2_nat: "0 \<le> k \<Longrightarrow> (2::rat) powi k = of_int (2 ^ nat k)"
  by (simp add: power_int_def)

lemma p2_pos: "0 < (2::rat) powi k"
  by simp

lemma p2_add: "(2::rat) powi (a + b) = 2 powi a * 2 powi b"
  by (simp add: power_int_add)

lemma p2_mono: "a \<le> b \<Longrightarrow> (2::rat) powi a \<le> 2 powi b"
  by (rule power_int_increasing) simp_all

lemma p2_strict_mono: "a < b \<Longrightarrow> (2::rat) powi a < 2 powi b"
  by (rule power_int_strict_increasing) simp_all

lemma p2_less_cancel: "(2::rat) powi a < 2 powi b \<Longrightarrow> a < b"
  using p2_mono [of b a] by (cases "a < b") auto

lemma bit_length_rat:
  assumes "0 < n"
  shows "2 powi (bit_length n - 1) \<le> (of_int n :: rat)" and "(of_int n :: rat) < 2 powi bit_length n"
proof -
  from bit_length_bounds [OF assms] have b: "1 \<le> bit_length n"
    and lo: "2 ^ nat (bit_length n - 1) \<le> n" and hi: "n < 2 ^ nat (bit_length n)"
    by simp_all
  have "(of_int (2 ^ nat (bit_length n - 1)) :: rat) \<le> of_int n"
    using lo by (simp only: of_int_le_iff)
  then show "2 powi (bit_length n - 1) \<le> (of_int n :: rat)"
    using b by (simp add: p2_nat)
  have "(of_int n :: rat) < of_int (2 ^ nat (bit_length n))"
    using hi by (simp only: of_int_less_iff)
  then show "(of_int n :: rat) < 2 powi bit_length n"
    using b by (simp add: p2_nat)
qed

lemma ilog2_bounds:
  assumes "0 < x"
  shows "2 powi ilog2 x \<le> x" and "x < 2 powi (ilog2 x + 1)"
proof -
  obtain p q where pq: "quotient_of x = (p, q)" by (cases "quotient_of x")
  have q: "0 < q" using pq by (rule quotient_of_denom_pos)
  have x: "x = of_int p / of_int q" using pq by (rule quotient_of_div)
  have p: "0 < p"
  proof (rule ccontr)
    assume "\<not> 0 < p"
    then have "(of_int p :: rat) \<le> 0" by simp
    with q have "of_int p / (of_int q :: rat) \<le> 0" by (simp add: divide_nonpos_pos)
    with x assms show False by simp
  qed
  define e0 where "e0 = bit_length p - bit_length q"
  have qq: "(0::rat) < of_int q" using q by simp
  have up: "x < 2 powi (e0 + 1)"
  proof -
    have "of_int p < (2::rat) powi bit_length p" using p by (rule bit_length_rat)
    also have "\<dots> = 2 powi (e0 + 1) * 2 powi (bit_length q - 1)"
      by (simp add: p2_add [symmetric] e0_def)
    also have "\<dots> \<le> 2 powi (e0 + 1) * of_int q"
      using bit_length_rat(1) [OF q] by (simp add: mult_left_mono)
    finally show ?thesis using qq by (simp add: x pos_divide_less_eq)
  qed
  have low: "2 powi (e0 - 1) \<le> x"
  proof -
    have "2 powi (e0 - 1) * of_int q \<le> (2::rat) powi (e0 - 1) * 2 powi bit_length q"
      using bit_length_rat(2) [OF q] by (simp add: mult_left_mono less_imp_le)
    also have "\<dots> = 2 powi (bit_length p - 1)"
      by (simp add: p2_add [symmetric] e0_def)
    also have "\<dots> \<le> of_int p" using p by (rule bit_length_rat)
    finally show ?thesis using qq by (simp add: x pos_le_divide_eq)
  qed
  have il: "ilog2 x = (if 2 powi e0 \<le> x then e0 else e0 - 1)"
    by (simp add: ilog2_def pq e0_def)
  show "2 powi ilog2 x \<le> x" using low by (simp add: il)
  show "x < 2 powi (ilog2 x + 1)" using up by (auto simp: il not_le)
qed

lemma ilog2_less:
  assumes "0 < x" and "x < 2 powi k"
  shows "ilog2 x < k"
proof -
  from ilog2_bounds(1) [OF assms(1)] assms(2) have "(2::rat) powi ilog2 x < 2 powi k" by simp
  then show ?thesis by (rule p2_less_cancel)
qed


lemma ilog2_zero: "ilog2 0 = - 2"
  by code_simp

lemma rne_error: "\<bar>of_int (rne z) - z\<bar> \<le> 1 / 2"
proof -
  have "of_int \<lfloor>z\<rfloor> \<le> z" and "z < of_int \<lfloor>z\<rfloor> + 1" by linarith+
  then show ?thesis by (auto simp: rne_def Let_def)
qed


lemma rne_nonneg: "0 \<le> z \<Longrightarrow> 0 \<le> rne z"
proof -
  assume "0 \<le> z"
  then have "0 \<le> \<lfloor>z\<rfloor>" by simp
  then show ?thesis by (auto simp: rne_def Let_def)
qed

lemma unit_roundoff_pos: "0 < unit_roundoff"
  by (simp add: unit_roundoff_def)

lemma tiny_pos: "0 < tiny"
  by (simp add: tiny_def)

lemma tiny_le: "tiny \<le> unit_roundoff"
  unfolding tiny_def unit_roundoff_def by (rule p2_mono) simp

lemma rd_pos_zero: "rd_pos 0 = 0"
  by (simp add: rd_pos_def rne_def Let_def)

lemma rd_pos_nonneg:
  assumes "0 \<le> x"
  shows "0 \<le> rd_pos x"
proof -
  define q where "q = max (ilog2 x - 52) (- 1074)"
  have "0 \<le> x / 2 powi q" using assms by simp
  then have "0 \<le> rne (x / 2 powi q)" by (rule rne_nonneg)
  then have "(0::rat) \<le> of_int (rne (x / 2 powi q)) * 2 powi q" by simp
  then show ?thesis by (simp add: rd_pos_def q_def Let_def)
qed

lemma rd_pos_error:
  assumes "0 \<le> x"
  shows "\<bar>rd_pos x - x\<bar> \<le> x * unit_roundoff + tiny"
proof (cases "x = 0")
  case True
  then show ?thesis using tiny_pos by (simp add: rd_pos_zero)
next
  case False
  with assms have pos: "0 < x" by simp
  define q where "q = max (ilog2 x - 52) (- 1074)"
  define z where "z = x / 2 powi q"
  have xz: "x = z * 2 powi q" by (simp add: z_def)
  have r: "rd_pos x = of_int (rne z) * 2 powi q"
    by (simp add: rd_pos_def q_def z_def Let_def)
  have "(of_int (rne z) - z) * 2 powi q = of_int (rne z) * 2 powi q - z * 2 powi q"
    by (simp add: algebra_simps)
  with r xz have "rd_pos x - x = (of_int (rne z) - z) * 2 powi q"
    by simp
  then have "\<bar>rd_pos x - x\<bar> = \<bar>of_int (rne z) - z\<bar> * 2 powi q"
    by (simp add: abs_mult)
  also have "\<dots> \<le> 1 / 2 * 2 powi q"
    using rne_error [of z] by (rule mult_right_mono) simp
  also have "\<dots> = 2 powi (q - 1)"
    using p2_add [of q "- 1"] by simp
  finally have e: "\<bar>rd_pos x - x\<bar> \<le> 2 powi (q - 1)" .
  have "2 powi (q - 1) \<le> x * unit_roundoff + tiny"
  proof (cases "- 1074 \<le> ilog2 x - 52")
    case True
    then have "q - 1 = ilog2 x + (- 53)" by (simp add: q_def)
    then have "(2::rat) powi (q - 1) = 2 powi ilog2 x * unit_roundoff"
      by (simp only: p2_add unit_roundoff_def)
    also have "\<dots> \<le> x * unit_roundoff"
      using ilog2_bounds(1) [OF pos] unit_roundoff_pos by (simp add: mult_right_mono)
    finally show ?thesis using tiny_pos by simp
  next
    case False
    then have "q - 1 = - 1075" by (simp add: q_def)
    then have "(2::rat) powi (q - 1) = tiny" by (simp only: tiny_def)
    moreover have "0 \<le> x * unit_roundoff" using pos unit_roundoff_pos by simp
    ultimately show ?thesis by simp
  qed
  with e show ?thesis by simp
qed

lemma rd_pos_upper: "0 \<le> x \<Longrightarrow> rd_pos x \<le> x + (x * unit_roundoff + tiny)"
  and rd_pos_lower: "0 \<le> x \<Longrightarrow> x - (x * unit_roundoff + tiny) \<le> rd_pos x"
  using rd_pos_error [of x] by (simp_all add: abs_le_iff)

lemma rd_Fin:
  assumes "0 \<le> x" and "x \<le> 2 powi 1000"
  shows "rd x = Fin (rd_pos x)"
proof (cases "x = 0")
  case True
  then show ?thesis by (simp add: rd_def rd_pos_zero)
next
  case False
  with assms have pos: "0 < x" by simp
  have small: "ilog2 (rd_pos x) < 1024"
  proof (cases "rd_pos x = 0")
    case True
    then show ?thesis by (simp add: ilog2_zero)
  next
    case False
    with rd_pos_nonneg [OF assms(1)] have vpos: "0 < rd_pos x" by simp
    have u1: "unit_roundoff \<le> 1"
      using p2_mono [of "- 53" 0] by (simp add: unit_roundoff_def)
    have one: "(1::rat) \<le> 2 powi 1000"
      using p2_mono [of 0 1000] by simp
    have "x * unit_roundoff \<le> x * 1"
      using u1 assms(1) by (rule mult_left_mono)
    moreover have "tiny \<le> 1" using tiny_le u1 by simp
    ultimately have "rd_pos x \<le> x + x + 1"
      using rd_pos_upper [OF assms(1)] by simp
    also have "\<dots> \<le> 2 powi 1000 + 2 powi 1000 + 2 powi 1000"
      using assms(2) one by simp
    also have "\<dots> < 4 * 2 powi 1000"
      using p2_pos [of 1000] by simp
    also have "\<dots> = 2 powi 2 * 2 powi 1000" by simp
    also have "\<dots> = 2 powi 1002" by (simp only: p2_add [symmetric]) simp
    also have "\<dots> \<le> 2 powi 1024" by (rule p2_mono) simp
    finally show ?thesis using vpos by (intro ilog2_less)
  qed
  with pos show ?thesis by (simp add: rd_def Let_def)
qed

lemma rd_nonneg_cases:
  assumes "0 \<le> x"
  shows "rd x = PInf \<or> (\<exists>v. rd x = Fin v \<and> 0 \<le> v)"
proof (cases "x = 0")
  case True
  then show ?thesis by (simp add: rd_def)
next
  case False
  with assms have "0 < x" by simp
  with rd_pos_nonneg [OF assms] show ?thesis by (simp add: rd_def Let_def)
qed



lemma unit_roundoff_val: "unit_roundoff = 1 / 2 ^ 53"
  by (simp add: unit_roundoff_def power_int_minus inverse_eq_divide)

lemma tiny_small: "tiny \<le> 1 / 2 ^ 60"
proof -
  have "tiny \<le> 2 powi (- 60)" unfolding tiny_def by (rule p2_mono) simp
  also have "\<dots> = 1 / 2 ^ 60" by (simp add: power_int_minus inverse_eq_divide)
  finally show ?thesis .
qed

lemma rd_small:
  assumes "0 \<le> x" and "x \<le> 2 ^ 43"
  shows "rd x = Fin (rd_pos x)"
proof -
  have "(2::rat) ^ 43 = 2 powi 43" by simp
  also have "\<dots> \<le> 2 powi 1000" by (rule p2_mono) simp
  finally have "x \<le> 2 powi 1000" using assms(2) by simp
  with assms(1) show ?thesis by (rule rd_Fin)
qed

lemma point_one_val: "point_one = Fin (3602879701896397 / 36028797018963968)"
  by code_simp

subsection \<open>The noise clip\<close>

lemma py_max_zero: "py_max (Fin 0) z = Fin a \<Longrightarrow> 0 \<le> a"
  by (cases z) (auto simp: py_max_def split: if_splits)

lemma py_max_ge: "py_max (Fin v) w = Fin b \<Longrightarrow> v \<le> b"
  by (cases w) (auto simp: py_max_def split: if_splits)

lemma py_max_not_inf: "py_max PInf w \<noteq> Fin b"
  by (cases w) (auto simp: py_max_def)



lemma py_slice_nonneg:
  assumes "0 \<le> i" and "0 \<le> j"
  shows "py_slice xs i j = drop (nat i) (take (nat j) xs)"
  using assms by (auto simp: py_slice_def slice_bound_def min_def)


lemma fl_mul_nonneg:
  assumes "fl_mul (Fin a) (Fin r) = Fin x" and "0 \<le> a" and "0 \<le> r"
  shows "0 \<le> x"
proof -
  have "0 \<le> a * r" using assms(2,3) by simp
  from rd_nonneg_cases [OF this] assms(1) show ?thesis by auto
qed

lemma float_of_int_Inr:
  assumes "float_of_int n = Inr f"
  shows "\<exists>r. f = Fin r \<and> rd (of_int n) = Fin r"
  using assms by (cases "rd (of_int n)") (auto simp: float_of_int_def)

lemma float_of_int_nonneg:
  assumes "float_of_int n = Inr f" and "0 \<le> n"
  obtains r where "f = Fin r" and "0 \<le> r"
proof -
  from float_of_int_Inr [OF assms(1)] obtain r where f: "f = Fin r" and r: "rd (of_int n) = Fin r"
    by blast
  have "(0::rat) \<le> of_int n" using assms(2) by simp
  from rd_nonneg_cases [OF this] r have "0 \<le> r" by auto
  with f that show thesis by blast
qed

text \<open>
  The total duration that \<open>process_file\<close> passes is \<open>len(audio) / sr\<close>, rounded; times
  the sample rate it exceeds the number of samples by less than a twentieth of a sample.
\<close>

lemma total_duration_samples:
  assumes "py_truediv (int n) sr = Inr (Fin t)" and "1 \<le> sr" and "sr \<le> 2 ^ 40"
    and "int n \<le> 2 ^ 39"
  shows "t * of_int sr \<le> of_nat n + 1 / 20" and "t * of_int sr \<le> 2 ^ 40"
proof -
  define S :: rat where "S = of_int sr"
  define N :: rat where "N = of_nat n"
  define q where "q = N / S"
  have S1: "1 \<le> S" using assms(2) by (simp add: S_def)
  have "S \<le> of_int (2 ^ 40)" unfolding S_def using assms(3) by (simp only: of_int_le_iff)
  then have S40: "S \<le> 1099511627776" by simp
  have N0: "0 \<le> N" by (simp add: N_def)
  have "N = of_int (int n)" by (simp add: N_def)
  also have "\<dots> \<le> of_int (2 ^ 39)" using assms(4) by (simp only: of_int_le_iff)
  finally have N39: "N \<le> 549755813888" by simp
  have q0: "0 \<le> q" using N0 S1 by (simp add: q_def)
  have qS: "q * S = N" using S1 by (simp add: q_def)
  have "q * 1 \<le> q * S" using S1 q0 by (rule mult_left_mono)
  with qS N39 have q39: "q \<le> 549755813888" by simp
  then have rdq: "rd q = Fin (rd_pos q)" using q0 by (intro rd_small) simp_all
  from assms(1,2) have "rd q = Fin t"
    by (simp add: py_truediv_def q_def N_def S_def split: pyfloat.splits if_splits)
  with rdq have t: "t = rd_pos q" by simp
  have u: "unit_roundoff = 1 / 2 ^ 53" by (rule unit_roundoff_val)
  have u0: "0 \<le> unit_roundoff" by (simp add: u)
  have up: "t \<le> q + (q * unit_roundoff + tiny)" unfolding t using q0 by (rule rd_pos_upper)
  have "t * S \<le> (q + (q * unit_roundoff + tiny)) * S"
    using up S1 by (intro mult_right_mono) simp_all
  also have "\<dots> = q * S + (q * S * unit_roundoff + tiny * S)" by (simp add: algebra_simps)
  finally have b: "t * S \<le> N + (N * unit_roundoff + tiny * S)" by (simp add: qS)
  have "tiny * S \<le> tiny * 1099511627776"
    using S40 tiny_pos by (intro mult_left_mono) simp_all
  with tiny_small have ts: "tiny * S \<le> 1 / 1024" by simp
  have "N * unit_roundoff \<le> 549755813888 * unit_roundoff" using N39 u0 by (rule mult_right_mono)
  then have nu: "N * unit_roundoff \<le> 1 / 1024" by (simp add: u)
  from b ts nu have "t * S \<le> N + 1 / 20" by linarith
  then show "t * of_int sr \<le> of_nat n + 1 / 20" by (simp add: S_def N_def)
  from b ts nu N39 have "t * S \<le> 1099511627776" by linarith
  then show "t * of_int sr \<le> 2 ^ 40" by (simp add: S_def)
qed




text \<open>
  C4, as stated: the slice boundaries are \<open>round(start' * sample_rate)\<close> and
  \<open>round(end' * sample_rate)\<close>. The code converts with \<open>int\<close>, which truncates: at ten
  samples per second the start 0.0625 seconds is sample 0, where rounding \<open>0.625\<close> gives
  sample 1.
\<close>

theorem extract_noise_clip_rounds_counterexample:
  "clamp_range (Fin (1 / 16), Fin (1 / 2)) (Fin 1) = (Fin (1 / 16), Fin (1 / 2))
   \<and> extract_noise_clip [0, 1, 2, 3, 4, 5, 6, 7, 8, 9 :: rat] 10 (Fin (1 / 16), Fin (1 / 2)) (Fin 1)
       = Inr [0, 1, 2, 3, 4]
   \<and> fl_mul (Fin (1 / 16)) (Fin 10) = Fin (5 / 8) \<and> fl_mul (Fin (1 / 2)) (Fin 10) = Fin 5
   \<and> py_slice [0, 1, 2, 3, 4, 5, 6, 7, 8, 9 :: rat] (round (5 / 8 :: rat)) (round (5 :: rat))
       = [1, 2, 3, 4]"
  by code_simp

text \<open>
  C4, amended: the extractor converts the clamped interval to sample indices by
  truncation. For a sample rate that is not negative, whenever the clamped ends and their
  products with the sample rate, rounded to doubles, are finite, neither product is negative
  and the slice is the half-open range of the signal from \<open>floor(start' * sample_rate)\<close> up
  to \<open>floor(end' * sample_rate)\<close>.
\<close>

theorem extract_noise_clip_truncates:
  assumes "clamp_range time_range total_duration = (Fin a, Fin b)"
    and "0 \<le> sr" and "float_of_int sr = Inr sr_float"
    and "fl_mul (Fin a) sr_float = Fin x" and "fl_mul (Fin b) sr_float = Fin y"
  shows "0 \<le> x \<and> 0 \<le> y
         \<and> extract_noise_clip audio sr time_range total_duration
             = Inr (drop (nat \<lfloor>x\<rfloor>) (take (nat \<lfloor>y\<rfloor>) audio))"
proof -
  obtain s e where tr: "time_range = (s, e)" by (cases time_range)
  define st' where "st' = py_max (Fin 0) (py_min s (fl_sub total_duration point_one))"
  have "clamp_range (s, e) total_duration
        = (st', py_max (fl_add st' point_one) (py_min e total_duration))"
    by (simp add: clamp_range_def Let_def st'_def)
  with assms(1) tr have s1: "st' = Fin a"
    and e1: "py_max (fl_add st' point_one) (py_min e total_duration) = Fin b"
    by auto
  from s1 have st: "py_max (Fin 0) (py_min s (fl_sub total_duration point_one)) = Fin a"
    by (simp only: st'_def)
  from e1 have en: "py_max (fl_add (Fin a) point_one) (py_min e total_duration) = Fin b"
    by (simp only: s1)
  from st have a: "0 \<le> a" by (rule py_max_zero)
  have "0 \<le> a + 3602879701896397 / 36028797018963968" using a by simp
  from rd_nonneg_cases [OF this] en have b: "0 \<le> b"
    by (auto simp: point_one_val py_max_not_inf dest!: py_max_ge)
  obtain r where r: "sr_float = Fin r" "0 \<le> r"
    using assms(3,2) by (rule float_of_int_nonneg)
  from assms(4) a r have x: "0 \<le> x" by (auto intro: fl_mul_nonneg)
  from assms(5) b r have y: "0 \<le> y" by (auto intro: fl_mul_nonneg)
  have fx: "0 \<le> \<lfloor>x\<rfloor>" and fy: "0 \<le> \<lfloor>y\<rfloor>" using x y by simp_all
  show ?thesis
    using assms x y py_slice_nonneg [OF fx fy, of audio]
    by (simp add: extract_noise_clip_def)
qed

theorem extract_noise_clip_truncates_witness:
  "clamp_range (Fin (3152519739159347 / 4503599627370496), Fin (3 / 4)) (Fin 1)
     = (Fin (3152519739159347 / 4503599627370496), Fin (7205759403792793 / 9007199254740992))
   \<and> (0 :: int) \<le> 10 \<and> float_of_int 10 = Inr (Fin 10)
   \<and> fl_mul (Fin (3152519739159347 / 4503599627370496)) (Fin 10) = Fin 7
   \<and> fl_mul (Fin (7205759403792793 / 9007199254740992)) (Fin 10)
       = Fin (9007199254740991 / 1125899906842624)
   \<and> extract_noise_clip [0, 1, 2, 3, 4, 5, 6, 7, 8, 9 :: rat] 10
        (Fin (3152519739159347 / 4503599627370496), Fin (3 / 4)) (Fin 1)
       = Inr (drop (nat \<lfloor>7 :: rat\<rfloor>) (take (nat \<lfloor>9007199254740991 / 1125899906842624 :: rat\<rfloor>)
               [0, 1, 2, 3, 4, 5, 6, 7, 8, 9]))
   \<and> extract_noise_clip [0, 1, 2, 3, 4, 5, 6, 7, 8, 9 :: rat] 10
        (Fin (3152519739159347 / 4503599627370496), Fin (3 / 4)) (Fin 1) = Inr []"
proof -
  have c: "clamp_range (Fin (3152519739159347 / 4503599627370496), Fin (3 / 4)) (Fin 1)
     = (Fin (3152519739159347 / 4503599627370496), Fin (7205759403792793 / 9007199254740992))"
    by code_simp
  have s: "(0 :: int) \<le> 10" by simp
  have f: "float_of_int 10 = Inr (Fin 10)" by code_simp
  have x: "fl_mul (Fin (3152519739159347 / 4503599627370496)) (Fin 10) = Fin 7" by code_simp
  have y: "fl_mul (Fin (7205759403792793 / 9007199254740992)) (Fin 10)
       = Fin (9007199254740991 / 1125899906842624)" by code_simp
  have ev: "extract_noise_clip [0, 1, 2, 3, 4, 5, 6, 7, 8, 9 :: rat] 10
        (Fin (3152519739159347 / 4503599627370496), Fin (3 / 4)) (Fin 1) = Inr []"
    by code_simp
  from extract_noise_clip_truncates [OF c s f x y, of "[0, 1, 2, 3, 4, 5, 6, 7, 8, 9 :: rat]"]
    c s f x y ev
  show ?thesis by blast
qed

subsection \<open>The test-noise mode\<close>

text \<open>
  C1: with the test-noise flag the noise clip itself is written, about one second for a
  track of twenty seconds and the position \<open>5%\<close>. The code gives the flag to nothing but
  the file name: the clip is the first two samples, yet the file \<open>noise_sample_in.wav\<close>
  holds what the denoiser returned for the whole track, here all forty samples.
\<close>

theorem main_test_noise_writes_denoised_track:
  "extract_noise_clip twenty_seconds 2 (parse_time_range ''5%'' (Fin 20)) (Fin 20) = Inr [0, 1]
   \<and> main keep_signal
       \<lparr>arg_input = Some [''in.wav''], arg_output = [''out''],
        arg_profile = ''default'', arg_noise_position = ''5%'', arg_noise_duration = Fin 1,
        arg_recursive = False, arg_verbose = False, arg_test_noise = True\<rparr>
       [([''in.wav''], File (Some (Mono twenty_seconds, 2)))]
     = (0, [([''in.wav''], File (Some (Mono twenty_seconds, 2))),
            ([''out''], Dir),
            ([''out'', ''noise_sample_in.wav''], File (Some (Mono twenty_seconds, 2)))])"
  by code_simp

subsection \<open>Finding the audio files\<close>

text \<open>
  C8: the files of a directory are found by extension without regard to case. The code
  globs the lower-case and the upper-case spelling of each extension only: \<open>a.Wav\<close> has
  an audio extension in the specification's sense and is not found, with or without
  recursion, while \<open>a.wav\<close> and \<open>b.WAV\<close> are.
\<close>

theorem collect_audio_files_misses_mixed_case:
  "spec_audio_extension ''a.Wav''
   \<and> collect_audio_files [([''in''], Dir), ([''in'', ''a.Wav''], File None)] [''in''] False = []
   \<and> collect_audio_files [([''in''], Dir), ([''in'', ''a.Wav''], File None)] [''in''] True = []
   \<and> collect_audio_files
         [([''in''], Dir), ([''in'', ''a.wav''], File None), ([''in'', ''b.WAV''], File None)]
         [''in''] False
       = [[''in'', ''a.wav''], [''in'', ''b.WAV'']]"
  by code_simp

subsection \<open>Strings and the float parser\<close>

lemma lower_char_minus: "lower_char c = CHR ''-'' \<longleftrightarrow> c = CHR ''-''"
  by (simp add: lower_char_def lower_table_def)

lemma lower_char_percent: "lower_char c = CHR ''%'' \<longleftrightarrow> c = CHR ''%''"
  by (simp add: lower_char_def lower_table_def)

lemma lower_keeps_minus: "CHR ''-'' \<in> set (lower s) \<longleftrightarrow> CHR ''-'' \<in> set s"
  unfolding lower_def by (induction s) (auto simp: lower_char_minus eq_commute [of "CHR ''-''"])

lemma lower_keeps_percent: "CHR ''%'' \<in> set (lower s) \<longleftrightarrow> CHR ''%'' \<in> set s"
  unfolding lower_def by (induction s) (auto simp: lower_char_percent eq_commute [of "CHR ''%''"])

lemma keyword_no_minus:
  assumes "CHR ''-'' \<in> set s"
  shows "lower s \<noteq> ''start''" and "lower s \<noteq> ''end''"
proof -
  from assms have m: "CHR ''-'' \<in> set (lower s)" by (simp add: lower_keeps_minus)
  show "lower s \<noteq> ''start''" using m by auto
  show "lower s \<noteq> ''end''" using m by auto
qed

lemma keyword_no_percent:
  assumes "CHR ''%'' \<in> set s"
  shows "lower s \<noteq> ''start''" and "lower s \<noteq> ''end''"
proof -
  from assms have m: "CHR ''%'' \<in> set (lower s)" by (simp add: lower_keeps_percent)
  show "lower s \<noteq> ''start''" using m by auto
  show "lower s \<noteq> ''end''" using m by auto
qed

lemma dropWhile_keeps:
  "x \<in> set xs \<Longrightarrow> \<not> P x \<Longrightarrow> x \<in> set (dropWhile P xs)"
  by (induction xs) auto

lemma strip_space_decomp:
  obtains w1 w2 where "s = w1 @ strip_space s @ w2"
    and "\<forall>c \<in> set w1. is_space c" and "\<forall>c \<in> set w2. is_space c"
proof -
  define x where "x = dropWhile is_space s"
  have s: "s = takeWhile is_space s @ x" by (simp add: x_def)
  have "rev (dropWhile is_space (rev x)) @ rev (takeWhile is_space (rev x))
        = rev (takeWhile is_space (rev x) @ dropWhile is_space (rev x))"
    by (simp only: rev_append)
  also have "\<dots> = rev (rev x)" by (simp only: takeWhile_dropWhile_id)
  also have "\<dots> = x" by simp
  finally have x: "x = strip_space s @ rev (takeWhile is_space (rev x))"
    by (simp add: strip_space_def x_def)
  have w1: "\<forall>c \<in> set (takeWhile is_space s). is_space c"
    by (auto dest: set_takeWhileD)
  have w2: "\<forall>c \<in> set (rev (takeWhile is_space (rev x))). is_space c"
    by (auto dest: set_takeWhileD)
  from s x have "s = takeWhile is_space s @ strip_space s @ rev (takeWhile is_space (rev x))"
    by simp
  with w1 w2 that show thesis by blast
qed

lemma strip_space_all_space:
  assumes "\<forall>c \<in> set w. is_space c"
  shows "strip_space w = []"
proof -
  from assms have d: "dropWhile is_space w = []" by (simp only: dropWhile_eq_Nil_conv)
  show ?thesis unfolding strip_space_def d by simp
qed

lemma py_float_all_space:
  assumes "\<forall>c \<in> set w. is_space c"
  shows "py_float w = None"
  using strip_space_all_space [OF assms] by (simp add: py_float_def)

lemma drop_underscores_chars:
  "drop_underscores prev t = Some u \<Longrightarrow> x \<in> set t \<Longrightarrow> x \<noteq> CHR ''_'' \<Longrightarrow> x \<in> set u"
  by (induction prev t arbitrary: u rule: drop_underscores.induct) (auto split: if_splits)

lemma drop_underscores_head:
  assumes "drop_underscores prev t = Some (c # u)" and "\<not> is_digit prev"
  shows "\<exists>t'. t = c # t'"
  using assms by (cases t) (auto split: if_splits)

lemma py_split_first:
  "sep \<notin> set w \<Longrightarrow> py_split sep (w @ sep # r) = w # py_split sep r"
  by (induction w) auto

lemma parse_exponent_chars:
  "parse_exponent t = Some e \<Longrightarrow> x \<in> set t \<Longrightarrow> is_digit x \<or> x = CHR ''+'' \<or> x = CHR ''-''"
  by (auto simp: parse_exponent_def split_sign_def list_all_iff split: list.splits if_splits)

lemma parse_decimal_tail:
  assumes "parse_decimal b = Some q"
  shows "case snd (after_point (dropWhile is_digit b)) of
           [] \<Rightarrow> True
         | c # t \<Rightarrow> (c = CHR ''e'' \<or> c = CHR ''E'') \<and> (\<exists>e. parse_exponent t = Some e)"
  using assms
  by (auto simp: parse_decimal_def Let_def split: prod.splits list.splits if_splits option.splits)

lemma after_point_keeps:
  assumes "x \<in> set r" and "\<not> is_digit x" and "x \<noteq> CHR ''.''"
  shows "x \<in> set (snd (after_point r))"
proof (cases r)
  case Nil
  with assms show ?thesis by simp
next
  case (Cons c t)
  show ?thesis
  proof (cases "c = CHR ''.''")
    case True
    with Cons assms have "x \<in> set t" by auto
    then have "x \<in> set (dropWhile is_digit t)" using assms(2) by (rule dropWhile_keeps)
    with Cons True show ?thesis by (simp add: after_point_def)
  next
    case False
    with Cons assms show ?thesis by (simp add: after_point_def)
  qed
qed

lemma parse_decimal_chars:
  assumes "parse_decimal b = Some q" and "x \<in> set b"
  shows "is_digit x \<or> x \<in> set ''.eE+-''"
proof (rule ccontr)
  assume n: "\<not> (is_digit x \<or> x \<in> set ''.eE+-'')"
  then have nd: "\<not> is_digit x" and np: "x \<noteq> CHR ''.''" by simp_all
  have "x \<in> set (dropWhile is_digit b)"
    using assms(2) nd by (rule dropWhile_keeps)
  then have x2: "x \<in> set (snd (after_point (dropWhile is_digit b)))"
    using nd np by (rule after_point_keeps)
  with parse_decimal_tail [OF assms(1)] n show False
    by (cases "snd (after_point (dropWhile is_digit b))") (auto dest: parse_exponent_chars)
qed

lemma pow10_pos: "0 < pow10 e"
  by (simp add: pow10_def)

lemma parse_decimal_nonneg:
  assumes "parse_decimal b = Some q"
  shows "0 \<le> q"
proof -
  have p: "0 \<le> pow10 e" for e
    using pow10_pos [of e] by (rule less_imp_le)
  from assms show ?thesis
    by (auto simp: parse_decimal_def Let_def p
          split: list.splits if_splits option.splits prod.splits
          intro!: mult_nonneg_nonneg divide_nonneg_nonneg)
qed

lemma parse_inf_nan_cases:
  assumes "parse_inf_nan b = Some v"
  shows "v = PInf \<or> v = NaN"
    and "lower b = ''inf'' \<or> lower b = ''infinity'' \<or> lower b = ''nan''"
  using assms by (auto simp: parse_inf_nan_def split: if_splits)

lemma parse_inf_nan_no_percent:
  assumes "parse_inf_nan b = Some v"
  shows "CHR ''%'' \<notin> set b"
proof
  assume "CHR ''%'' \<in> set b"
  then have "CHR ''%'' \<in> set (lower b)" by (simp add: lower_keeps_percent)
  with parse_inf_nan_cases(2) [OF assms] show False by auto
qed

lemma split_sign_cases:
  "split_sign u = (False, u) \<or> split_sign u = (False, tl u) \<and> u = CHR ''+'' # tl u
   \<or> split_sign u = (True, tl u) \<and> u = CHR ''-'' # tl u"
  by (cases u) (auto simp: split_sign_def)

lemma parse_number_no_percent:
  assumes "parse_number u = Some v"
  shows "CHR ''%'' \<notin> set u"
proof
  assume pc: "CHR ''%'' \<in> set u"
  obtain neg body where sp: "split_sign u = (neg, body)" by (cases "split_sign u")
  from split_sign_cases [of u] sp pc have pb: "CHR ''%'' \<in> set body"
    by (cases u) auto
  show False
  proof (cases "parse_decimal body")
    case (Some q)
    from parse_decimal_chars [OF Some pb] show False by (simp add: is_digit_def)
  next
    case None
    with assms sp obtain w where "parse_inf_nan body = Some w"
      by (auto simp: parse_number_def)
    from parse_inf_nan_no_percent [OF this] pb show False by simp
  qed
qed

lemma parse_number_negative:
  assumes "parse_number u = Some v" and "fl_lt v (Fin 0)"
  shows "\<exists>body. u = CHR ''-'' # body"
proof -
  obtain neg body where sp: "split_sign u = (neg, body)" by (cases "split_sign u")
  have neg
  proof (rule ccontr)
    assume nn: "\<not> neg"
    show False
    proof (cases "parse_decimal body")
      case (Some q)
      with assms(1) sp nn have "v = rd q" by (simp add: parse_number_def)
      with rd_nonneg_cases [OF parse_decimal_nonneg [OF Some]] assms(2) show False by auto
    next
      case None
      with assms(1) sp nn have "parse_inf_nan body = Some v"
        by (auto simp: parse_number_def)
      from parse_inf_nan_cases(1) [OF this] assms(2) show False by auto
    qed
  qed
  with sp split_sign_cases [of u] show ?thesis by auto
qed

lemma py_float_parts:
  assumes "py_float s = Some v"
  obtains u where "strip_space s \<noteq> []"
    and "drop_underscores (CHR 0x00) (strip_space s) = Some u" and "parse_number u = Some v"
  using assms by (auto simp: py_float_def Let_def split: if_splits option.splits)

lemma py_float_no_percent:
  assumes "py_float s = Some v"
  shows "CHR ''%'' \<notin> set s"
proof
  assume pc: "CHR ''%'' \<in> set s"
  obtain u where du: "drop_underscores (CHR 0x00) (strip_space s) = Some u"
    and pn: "parse_number u = Some v"
    using assms by (rule py_float_parts)
  obtain w1 w2 where s: "s = w1 @ strip_space s @ w2"
    and w1: "\<forall>c \<in> set w1. is_space c" and w2: "\<forall>c \<in> set w2. is_space c"
    by (rule strip_space_decomp)
  have "\<not> is_space (CHR ''%'')" by (simp add: is_space_def)
  with w1 w2 have "CHR ''%'' \<notin> set w1" and "CHR ''%'' \<notin> set w2" by auto
  with pc s have "CHR ''%'' \<in> set (strip_space s)"
    by (metis Un_iff set_append)
  from drop_underscores_chars [OF du this] have "CHR ''%'' \<in> set u" by simp
  with parse_number_no_percent [OF pn] show False by simp
qed

lemma py_float_negative:
  assumes "py_float s = Some v" and "fl_lt v (Fin 0)"
  obtains w r where "s = w @ CHR ''-'' # r" and "\<forall>c \<in> set w. is_space c"
proof -
  obtain u where du: "drop_underscores (CHR 0x00) (strip_space s) = Some u"
    and pn: "parse_number u = Some v"
    using assms(1) by (rule py_float_parts)
  from parse_number_negative [OF pn assms(2)] obtain body where u: "u = CHR ''-'' # body" ..
  have "\<not> is_digit (CHR 0x00)" by (simp add: is_digit_def)
  with drop_underscores_head [of "CHR 0x00" "strip_space s" "CHR ''-''" body] du u
  obtain t' where t: "strip_space s = CHR ''-'' # t'" by auto
  obtain w1 w2 where s: "s = w1 @ strip_space s @ w2"
    and w1: "\<forall>c \<in> set w1. is_space c"
    by (rule strip_space_decomp)
  from s t have "s = w1 @ CHR ''-'' # (t' @ w2)" by simp
  with w1 that show thesis by blast
qed

subsection \<open>The time-range parser\<close>

lemma fl_div_100: "\<exists>y. fl_div p (Fin 100) = Inr y"
  by (cases p) simp_all

lemma parse_body_raises_iff:
  "(\<exists>e. parse_body s d = Inl e) \<longleftrightarrow> spec_malformed s"
proof (cases "lower s = ''start'' \<or> lower s = ''end''")
  case True
  then show ?thesis by (auto simp: parse_body_def spec_malformed_def)
next
  case kw: False
  show ?thesis
  proof (cases "CHR ''%'' \<in> set s")
    case True
    show ?thesis
    proof (cases "py_float (strip_char (CHR ''%'') s)")
      case None
      with kw True show ?thesis by (simp add: parse_body_def spec_malformed_def)
    next
      case (Some p)
      from fl_div_100 [of p] obtain y where "fl_div p (Fin 100) = Inr y" ..
      with kw True Some show ?thesis by (simp add: parse_body_def spec_malformed_def)
    qed
  next
    case pc: False
    show ?thesis
    proof (cases "CHR ''-'' \<in> set s")
      case True
      with kw pc show ?thesis
        by (auto simp: parse_body_def spec_malformed_def split: list.splits option.splits)
    next
      case False
      with kw pc show ?thesis
        by (auto simp: parse_body_def spec_malformed_def split: option.splits)
    qed
  qed
qed

text \<open>
  C5: \<open>parse_time_range\<close> is a total function, so it returns for every string, and it
  returns the first second \<open>(0.0, 1.0)\<close> on every malformed expression: the body of its
  \<open>try\<close> block raises exactly on the malformed expressions, among them \<open>abc\<close>,
  \<open>1-2-3\<close> and the empty string, and the handler maps every exception to that interval.
\<close>

theorem parse_time_range_fallback:
  "(spec_malformed s \<longrightarrow> parse_time_range s d = (Fin 0, Fin 1))
   \<and> ((\<exists>e. parse_body s d = Inl e) \<longleftrightarrow> spec_malformed s)
   \<and> spec_malformed ''abc'' \<and> spec_malformed ''1-2-3'' \<and> spec_malformed ''''"
proof -
  have "parse_time_range s d = (Fin 0, Fin 1)" if "spec_malformed s"
  proof -
    from that obtain e where "parse_body s d = Inl e"
      using parse_body_raises_iff [of s d] by blast
    then show ?thesis by (simp add: parse_time_range_def)
  qed
  moreover have "spec_malformed ''abc''" by code_simp
  moreover have "spec_malformed ''1-2-3''" by code_simp
  moreover have "spec_malformed ''''" by code_simp
  ultimately show ?thesis using parse_body_raises_iff [of s d] by blast
qed

theorem parse_time_range_fallback_witness:
  "spec_malformed ''1-2-3'' \<and> parse_time_range ''1-2-3'' (Fin 10) = (Fin 0, Fin 1)
   \<and> parse_body ''1-2-3'' (Fin 10) = Inl ValueError"
proof -
  have m: "spec_malformed ''1-2-3''" by code_simp
  have b: "parse_body ''1-2-3'' (Fin 10) = Inl ValueError" by code_simp
  from parse_time_range_fallback [of "''1-2-3''" "Fin 10"] m b show ?thesis by blast
qed

lemma dropWhile_absent: "c \<notin> set s \<Longrightarrow> dropWhile (\<lambda>x. x = c) s = s"
  by (cases s) auto

lemma strip_char_trailing:
  assumes "c \<notin> set s"
  shows "strip_char c (s @ [c]) = s"
proof (cases s)
  case Nil
  then show ?thesis by (simp add: strip_char_def)
next
  case (Cons a s')
  with assms have "dropWhile (\<lambda>x. x = c) (s @ [c]) = s @ [c]" by auto
  moreover from assms have "dropWhile (\<lambda>x. x = c) (rev s) = rev s"
    by (simp add: dropWhile_absent)
  ultimately show ?thesis by (simp add: strip_char_def)
qed

text \<open>
  C6, as stated: a percentage \<open>p%\<close> gives \<open>(0.0, d * p / 100)\<close>. The code divides
  first and multiplies then, \<open>d * (p / 100.0)\<close>, and each operation rounds: for \<open>7%\<close>
  of a track of 20 seconds it returns \<open>1.4000000000000001\<close>, while \<open>d * p / 100\<close> is
  \<open>1.4\<close>, as a float expression and as the exact value rounded.
\<close>

theorem parse_time_range_percent_counterexample:
  "py_float ''7'' = Some (Fin 7)
   \<and> parse_time_range ''7%'' (Fin 20) = (Fin 0, Fin (6305039478318695 / 4503599627370496))
   \<and> fl_div (fl_mul (Fin 20) (Fin 7)) (Fin 100) = Inr (Fin (3152519739159347 / 2251799813685248))
   \<and> rd (20 * 7 / 100) = Fin (3152519739159347 / 2251799813685248)
   \<and> (6305039478318695 / 4503599627370496 :: rat) \<noteq> 3152519739159347 / 2251799813685248"
  by code_simp

text \<open>
  C6, amended: for every total duration \<open>d > 1.0\<close>, the keyword \<open>start\<close> in any case
  gives \<open>(0.0, 1.0)\<close>, the keyword \<open>end\<close> in any case gives \<open>(d - 1.0, d)\<close>, and a
  percentage \<open>p%\<close>, where \<open>float\<close> reads \<open>p\<close> and \<open>0 \<le> p \<le> 100\<close>, gives
  \<open>(0.0, d * (p / 100.0))\<close> in float arithmetic, the quotient rounded before the product
  is, always measured from the beginning of the track.
\<close>

theorem parse_time_range_keywords_percent:
  assumes "1 < t"
  shows "(lower s = ''start'' \<longrightarrow> parse_time_range s (Fin t) = (Fin 0, Fin 1))
       \<and> (lower s = ''end'' \<longrightarrow> parse_time_range s (Fin t) = (fl_sub (Fin t) (Fin 1), Fin t))
       \<and> (py_float s = Some (Fin p) \<and> 0 \<le> p \<and> p \<le> 100
            \<longrightarrow> (\<exists>percent. fl_div (Fin p) (Fin 100) = Inr percent
                  \<and> parse_time_range (s @ ''%'') (Fin t) = (Fin 0, fl_mul (Fin t) percent)))"
proof (intro conjI impI)
  assume "lower s = ''start''"
  then show "parse_time_range s (Fin t) = (Fin 0, Fin 1)"
    by (simp add: parse_time_range_def parse_body_def)
next
  assume "lower s = ''end''"
  then show "parse_time_range s (Fin t) = (fl_sub (Fin t) (Fin 1), Fin t)"
    by (simp add: parse_time_range_def parse_body_def)
next
  assume a: "py_float s = Some (Fin p) \<and> 0 \<le> p \<and> p \<le> 100"
  then have f: "py_float s = Some (Fin p)" by simp
  from py_float_no_percent [OF f] have np: "CHR ''%'' \<notin> set s" .
  have in_str: "CHR ''%'' \<in> set (s @ ''%'')" by simp
  have kw: "lower (s @ ''%'') \<noteq> ''start''" "lower (s @ ''%'') \<noteq> ''end''"
    using keyword_no_percent [OF in_str] by simp_all
  have st: "strip_char (CHR ''%'') (s @ ''%'') = s"
    using np by (rule strip_char_trailing)
  have d: "fl_div (Fin p) (Fin 100) = Inr (rd (p / 100))" by simp
  have "parse_time_range (s @ ''%'') (Fin t) = (Fin 0, fl_mul (Fin t) (rd (p / 100)))"
    using kw in_str st f by (simp add: parse_time_range_def parse_body_def del: set_append)
  with d show "\<exists>percent. fl_div (Fin p) (Fin 100) = Inr percent
      \<and> parse_time_range (s @ ''%'') (Fin t) = (Fin 0, fl_mul (Fin t) percent)"
    by blast
qed

theorem parse_time_range_keywords_percent_witness:
  "(1 :: rat) < 20
   \<and> lower ''START'' = ''start'' \<and> parse_time_range ''START'' (Fin 20) = (Fin 0, Fin 1)
   \<and> lower ''End'' = ''end'' \<and> parse_time_range ''End'' (Fin 20) = (Fin 19, Fin 20)
   \<and> py_float ''7'' = Some (Fin 7) \<and> (0 :: rat) \<le> 7 \<and> (7 :: rat) \<le> 100
   \<and> fl_div (Fin 7) (Fin 100) = Inr (Fin (1261007895663739 / 18014398509481984))
   \<and> parse_time_range (''7'' @ ''%'') (Fin 20)
       = (Fin 0, fl_mul (Fin 20) (Fin (1261007895663739 / 18014398509481984)))"
proof -
  have h: "(1 :: rat) < 20" by simp
  have l1: "lower ''START'' = ''start''" by code_simp
  have l2: "lower ''End'' = ''end''" by code_simp
  have f: "py_float ''7'' = Some (Fin 7)" by code_simp
  have b: "(0 :: rat) \<le> 7" "(7 :: rat) \<le> 100" by simp_all
  have d: "fl_div (Fin 7) (Fin 100) = Inr (Fin (1261007895663739 / 18014398509481984))"
    by code_simp
  have e: "fl_sub (Fin 20) (Fin 1) = Fin 19" by code_simp
  from parse_time_range_keywords_percent [OF h, of "''START''"] l1
  have 1: "parse_time_range ''START'' (Fin 20) = (Fin 0, Fin 1)" by blast
  from parse_time_range_keywords_percent [OF h, of "''End''"] l2 e
  have 2: "parse_time_range ''End'' (Fin 20) = (Fin 19, Fin 20)" by simp
  from parse_time_range_keywords_percent [OF h, of "''7''" 7] f b d
  have 3: "parse_time_range (''7'' @ ''%'') (Fin 20)
       = (Fin 0, fl_mul (Fin 20) (Fin (1261007895663739 / 18014398509481984)))"
    by auto
  from h l1 l2 f b d 1 2 3 show ?thesis by blast
qed

text \<open>
  C10: a string that \<open>float\<close> reads as a negative number is not taken as a position.
  It holds a minus sign, so the range branch splits it there; the piece before the sign is
  empty or blank, \<open>float\<close> fails on it, and the result is the fallback \<open>(0.0, 1.0)\<close>,
  not \<open>(position, position + 1.0)\<close>.
\<close>

theorem parse_time_range_negative_float:
  assumes "py_float s = Some v" and "fl_lt v (Fin 0)"
  shows "parse_body s d = Inl ValueError \<and> parse_time_range s d = (Fin 0, Fin 1)
         \<and> parse_time_range s d \<noteq> (v, fl_add v (Fin 1))"
proof -
  obtain w r where s: "s = w @ CHR ''-'' # r" and w: "\<forall>c \<in> set w. is_space c"
    using assms by (rule py_float_negative)
  have m: "CHR ''-'' \<in> set s" using s by simp
  have np: "CHR ''%'' \<notin> set s" using assms(1) by (rule py_float_no_percent)
  have "\<not> is_space (CHR ''-'')" by (simp add: is_space_def)
  with w have "CHR ''-'' \<notin> set w" by auto
  then have sp: "py_split (CHR ''-'') s = w # py_split (CHR ''-'') r"
    unfolding s by (rule py_split_first)
  have fw: "py_float w = None" using w by (rule py_float_all_space)
  have b: "parse_body s d = Inl ValueError"
    using keyword_no_minus [OF m] np m sp fw
    by (simp add: parse_body_def split: list.splits)
  from assms(2) have "v \<noteq> Fin 0" by auto
  with b show ?thesis by (simp add: parse_time_range_def)
qed

theorem parse_time_range_negative_float_witness:
  "py_float ''-3'' = Some (Fin (- 3)) \<and> fl_lt (Fin (- 3)) (Fin 0)
   \<and> parse_time_range ''-3'' (Fin 10) = (Fin 0, Fin 1)"
proof -
  have f: "py_float ''-3'' = Some (Fin (- 3))" by code_simp
  have n: "fl_lt (Fin (- 3)) (Fin 0)" by simp
  from parse_time_range_negative_float [OF f n, of "Fin 10"] f n show ?thesis by blast
qed

end
